theory Spec2Isabelle
  imports Main "HOL-Library.AList"
begin

section \<open>Data model of the engine package\<close>

text \<open>
  The Go code hands out and stores pointers (\<^verbatim>\<open>*User\<close>, \<^verbatim>\<open>*Post\<close>, \<^verbatim>\<open>*Comment\<close>), and
  several operations write through them, so the objects live in an explicit store.
  A pointer is a natural number: \<open>0\<close> is \<^verbatim>\<open>nil\<close>, and the address \<open>a > 0\<close> names cell
  \<open>a - 1\<close> of the store of its type. Reading or writing through \<^verbatim>\<open>nil\<close> panics in Go;
  in the model it is the error \<open>NilDereference\<close>, which ends the run (a recovered
  panic is not modelled). An address beyond the store does not exist in Go and is
  treated like \<^verbatim>\<open>nil\<close>. The stores hold the objects that the operations themselves
  allocate (\<^verbatim>\<open>&User{...}\<close> in RegisterUser, \<^verbatim>\<open>&Post{...}\<close> in CreatePost and CreateRepost,
  the escaping locals \<^verbatim>\<open>comment\<close> and \<^verbatim>\<open>reply\<close>); objects that a caller builds by
  itself, and pointers into a slice such as \<^verbatim>\<open>&post.Comments[i]\<close>, which no operation
  forms, are outside the model.

  Go's \<^verbatim>\<open>int\<close> is modelled by \<open>int\<close>: every counter moves by one per operation, so
  no property below is reached by wrap-around. A Go map is an association list with
  \<open>map_of\<close> for lookup, \<open>AList.update\<close> for assignment and \<open>AList.delete\<close> for
  \<^verbatim>\<open>delete\<close>; \<^verbatim>\<open>len\<close> is its length. A slice whose elements are only ever appended
  is a list. \<^verbatim>\<open>StartTime\<close> (wall-clock time) and \<^verbatim>\<open>Mutex\<close> are left out: every
  operation holds the lock from entry to return, so operations are atomic steps.
\<close>

type_synonym user_ref = nat
type_synonym post_ref = nat
type_synonym comment_ref = nat

datatype error = NilDereference

record User =
  ID :: int
  Username :: string
  Karma :: int
  Actions :: int
  Connected :: bool

datatype Comment =
  Comment (ID: int) (Author: user_ref) (Content: string) (Replies: "Comment list") (Votes: int)

record Post =
  ID :: int
  Author :: user_ref
  Content :: string
  Comments :: "Comment list"
  Votes :: int

record SubReddit =
  Name :: string
  Posts :: "post_ref list"
  Users :: "(int \<times> user_ref) list"

record Message =
  From :: user_ref
  To :: user_ref
  Content :: string

record Engine =
  Users :: "(int \<times> user_ref) list"
  SubReddits :: "(string \<times> SubReddit) list"
  Messages :: "Message list"
  PostID :: int
  CommentID :: int
  TotalPosts :: int
  TotalVotes :: int
  TotalUpvotes :: int
  TotalDownvotes :: int
  TotalMessages :: int
  TotalActions :: int
  TotalComments :: int
  DisconnectedUsers :: int
  ActionBreakdown :: "(string \<times> int) list"

text \<open>
  The program state: the Engine's own fields, extended by the stores of the objects
  that its pointers refer to. \<^verbatim>\<open>e.SubReddits\<close> holds \<^verbatim>\<open>*SubReddit\<close>; no operation takes
  such a pointer and no operation rebinds a name once it is present, so the SubReddit
  object is kept as the value under its name.
\<close>

record world = Engine +
  user_objs :: "User list"
  post_objs :: "Post list"
  comment_objs :: "Comment list"

definition deref :: "'a list \<Rightarrow> nat \<Rightarrow> 'a option" where
  "deref h a = (if a = 0 \<or> length h < a then None else Some (h ! (a - 1)))"

definition store :: "'a list \<Rightarrow> nat \<Rightarrow> 'a \<Rightarrow> 'a list" where
  "store h a v = h[a - 1 := v]"

definition alloc :: "'a list \<Rightarrow> 'a \<Rightarrow> nat \<times> 'a list" where
  "alloc h v = (Suc (length h), h @ [v])"

text \<open>\<^verbatim>\<open>m[k]++\<close> on a \<^verbatim>\<open>map[string]int\<close>: a missing key reads as 0.\<close>

definition incr :: "string \<Rightarrow> (string \<times> int) list \<Rightarrow> (string \<times> int) list" where
  "incr k m = AList.update k ((case map_of m k of None \<Rightarrow> 0 | Some v \<Rightarrow> v) + 1) m"

section \<open>Initialization and utility functions\<close>

definition NewEngine :: world where
  "NewEngine =
     \<lparr>Engine.Users = [], SubReddits = [], Messages = [], PostID = 1, CommentID = 1,
      TotalPosts = 0, TotalVotes = 0, TotalUpvotes = 0, TotalDownvotes = 0,
      TotalMessages = 0, TotalActions = 0, TotalComments = 0, DisconnectedUsers = 0,
      ActionBreakdown = [(''Posts'', 0), (''Comments'', 0), (''Votes'', 0), (''Messages'', 0)],
      user_objs = [], post_objs = [], comment_objs = []\<rparr>"

definition RegisterUser :: "string \<Rightarrow> world \<Rightarrow> user_ref \<times> world" where
  "RegisterUser username e =
     (let id = int (length (Engine.Users e)) + 1;
          (user, h) = alloc (user_objs e)
             \<lparr>User.ID = id, Username = username, Karma = 0, Actions = 0, Connected = True\<rparr>
      in (user, e\<lparr>Engine.Users := AList.update id user (Engine.Users e), user_objs := h\<rparr>))"

definition CreateSubReddit :: "string \<Rightarrow> world \<Rightarrow> SubReddit option \<times> world" where
  "CreateSubReddit name e =
     (case map_of (SubReddits e) name of
        Some _ \<Rightarrow> (None, e)
      | None \<Rightarrow>
          (let subReddit = \<lparr>Name = name, Posts = [], SubReddit.Users = []\<rparr>
           in (Some subReddit, e\<lparr>SubReddits := AList.update name subReddit (SubReddits e)\<rparr>)))"

definition JoinSubReddit :: "user_ref \<Rightarrow> string \<Rightarrow> world \<Rightarrow> error + (bool \<times> world)" where
  "JoinSubReddit user subRedditName e =
     (case map_of (SubReddits e) subRedditName of
        None \<Rightarrow> Inr (False, e)
      | Some subReddit \<Rightarrow>
          (case deref (user_objs e) user of
             None \<Rightarrow> Inl NilDereference
           | Some u \<Rightarrow>
               Inr (True,
                 e\<lparr>SubReddits := AList.update subRedditName
                      (subReddit\<lparr>SubReddit.Users :=
                         AList.update (User.ID u) user (SubReddit.Users subReddit)\<rparr>)
                      (SubReddits e),
                   TotalActions := TotalActions e + 1,
                   user_objs := store (user_objs e) user (u\<lparr>Actions := Actions u + 1\<rparr>)\<rparr>)))"

definition LeaveSubReddit :: "user_ref \<Rightarrow> string \<Rightarrow> world \<Rightarrow> error + (bool \<times> world)" where
  "LeaveSubReddit user subRedditName e =
     (case map_of (SubReddits e) subRedditName of
        None \<Rightarrow> Inr (False, e)
      | Some subReddit \<Rightarrow>
          (case deref (user_objs e) user of
             None \<Rightarrow> Inl NilDereference
           | Some u \<Rightarrow>
               Inr (True,
                 e\<lparr>SubReddits := AList.update subRedditName
                      (subReddit\<lparr>SubReddit.Users :=
                         AList.delete (User.ID u) (SubReddit.Users subReddit)\<rparr>)
                      (SubReddits e),
                   TotalActions := TotalActions e + 1,
                   user_objs := store (user_objs e) user (u\<lparr>Actions := Actions u + 1\<rparr>)\<rparr>)))"

text \<open>The returned \<^verbatim>\<open>*Post\<close> is \<open>0\<close> (\<^verbatim>\<open>nil\<close>) when the community is unknown.\<close>

definition CreatePost :: "user_ref \<Rightarrow> string \<Rightarrow> string \<Rightarrow> world \<Rightarrow> error + (post_ref \<times> world)" where
  "CreatePost user subRedditName content e =
     (case map_of (SubReddits e) subRedditName of
        None \<Rightarrow> Inr (0, e)
      | Some subReddit \<Rightarrow>
          (case deref (user_objs e) user of
             None \<Rightarrow> Inl NilDereference
           | Some u \<Rightarrow>
               (let (post, h) = alloc (post_objs e)
                      \<lparr>Post.ID = PostID e, Author = user, Content = content,
                       Comments = [], Votes = 0\<rparr>
                in Inr (post,
                     e\<lparr>SubReddits := AList.update subRedditName
                          (subReddit\<lparr>Posts := Posts subReddit @ [post]\<rparr>) (SubReddits e),
                       PostID := PostID e + 1,
                       TotalPosts := TotalPosts e + 1,
                       TotalActions := TotalActions e + 1,
                       ActionBreakdown := incr ''Posts'' (ActionBreakdown e),
                       user_objs := store (user_objs e) user (u\<lparr>Actions := Actions u + 1\<rparr>),
                       post_objs := h\<rparr>))))"

definition CreateRepost :: "user_ref \<Rightarrow> post_ref \<Rightarrow> string \<Rightarrow> world \<Rightarrow> error + (post_ref \<times> world)" where
  "CreateRepost user originalPost subRedditName e =
     (case map_of (SubReddits e) subRedditName of
        None \<Rightarrow> Inr (0, e)
      | Some subReddit \<Rightarrow>
          (case deref (post_objs e) originalPost of
             None \<Rightarrow> Inl NilDereference
           | Some original \<Rightarrow>
               (case deref (user_objs e) user of
                  None \<Rightarrow> Inl NilDereference
                | Some u \<Rightarrow>
                    (let (repost, h) = alloc (post_objs e)
                           \<lparr>Post.ID = PostID e, Author = user, Content = Post.Content original,
                            Comments = [], Votes = 0\<rparr>
                     in Inr (repost,
                          e\<lparr>SubReddits := AList.update subRedditName
                               (subReddit\<lparr>Posts := Posts subReddit @ [repost]\<rparr>) (SubReddits e),
                            PostID := PostID e + 1,
                            TotalPosts := TotalPosts e + 1,
                            TotalActions := TotalActions e + 1,
                            ActionBreakdown := incr ''Posts'' (ActionBreakdown e),
                            user_objs := store (user_objs e) user (u\<lparr>Actions := Actions u + 1\<rparr>),
                            post_objs := h\<rparr>)))))"

text \<open>
  \<^verbatim>\<open>comment\<close> is a local variable of struct type; \<^verbatim>\<open>append\<close> copies its value into the
  post's slice, and \<^verbatim>\<open>&comment\<close> is the address of the variable itself, a fresh cell.
\<close>

definition CommentPost :: "user_ref \<Rightarrow> post_ref \<Rightarrow> string \<Rightarrow> world \<Rightarrow> error + (comment_ref \<times> world)" where
  "CommentPost user post content e =
     (let comment = Comment (CommentID e) user content [] 0
      in case deref (post_objs e) post of
           None \<Rightarrow> Inl NilDereference
         | Some p \<Rightarrow>
             (case deref (user_objs e) user of
                None \<Rightarrow> Inl NilDereference
              | Some u \<Rightarrow>
                  (let (c, h) = alloc (comment_objs e) comment
                   in Inr (c,
                        e\<lparr>CommentID := CommentID e + 1,
                          TotalActions := TotalActions e + 1,
                          TotalComments := TotalComments e + 1,
                          ActionBreakdown := incr ''Comments'' (ActionBreakdown e),
                          user_objs := store (user_objs e) user (u\<lparr>Actions := Actions u + 1\<rparr>),
                          post_objs := store (post_objs e) post
                             (p\<lparr>Comments := Comments p @ [comment]\<rparr>),
                          comment_objs := h\<rparr>))))"

definition AddReplyToComment :: "user_ref \<Rightarrow> comment_ref \<Rightarrow> string \<Rightarrow> world \<Rightarrow> error + (comment_ref \<times> world)" where
  "AddReplyToComment user parentComment content e =
     (let reply = Comment (CommentID e) user content [] 0
      in case deref (comment_objs e) parentComment of
           None \<Rightarrow> Inl NilDereference
         | Some parent \<Rightarrow>
             (case deref (user_objs e) user of
                None \<Rightarrow> Inl NilDereference
              | Some u \<Rightarrow>
                  (let (r, h) = alloc
                         (store (comment_objs e) parentComment
                            (Comment (Comment.ID parent) (Comment.Author parent)
                               (Comment.Content parent) (Replies parent @ [reply])
                               (Comment.Votes parent)))
                         reply
                   in Inr (r,
                        e\<lparr>CommentID := CommentID e + 1,
                          TotalActions := TotalActions e + 1,
                          TotalComments := TotalComments e + 1,
                          ActionBreakdown := incr ''Comments'' (ActionBreakdown e),
                          user_objs := store (user_objs e) user (u\<lparr>Actions := Actions u + 1\<rparr>),
                          comment_objs := h\<rparr>))))"

definition UpvotePost :: "post_ref \<Rightarrow> world \<Rightarrow> error + world" where
  "UpvotePost post e =
     (case deref (post_objs e) post of
        None \<Rightarrow> Inl NilDereference
      | Some p \<Rightarrow>
          (case deref (user_objs e) (Post.Author p) of
             None \<Rightarrow> Inl NilDereference
           | Some a \<Rightarrow>
               Inr (e\<lparr>TotalVotes := TotalVotes e + 1,
                      TotalUpvotes := TotalUpvotes e + 1,
                      TotalActions := TotalActions e + 1,
                      ActionBreakdown := incr ''Votes'' (ActionBreakdown e),
                      user_objs := store (user_objs e) (Post.Author p) (a\<lparr>Karma := Karma a + 1\<rparr>),
                      post_objs := store (post_objs e) post (p\<lparr>Post.Votes := Post.Votes p + 1\<rparr>)\<rparr>)))"

definition DownvotePost :: "post_ref \<Rightarrow> world \<Rightarrow> error + world" where
  "DownvotePost post e =
     (case deref (post_objs e) post of
        None \<Rightarrow> Inl NilDereference
      | Some p \<Rightarrow>
          (case deref (user_objs e) (Post.Author p) of
             None \<Rightarrow> Inl NilDereference
           | Some a \<Rightarrow>
               Inr (e\<lparr>TotalVotes := TotalVotes e + 1,
                      TotalDownvotes := TotalDownvotes e + 1,
                      TotalActions := TotalActions e + 1,
                      ActionBreakdown := incr ''Votes'' (ActionBreakdown e),
                      user_objs := store (user_objs e) (Post.Author p) (a\<lparr>Karma := Karma a - 1\<rparr>),
                      post_objs := store (post_objs e) post (p\<lparr>Post.Votes := Post.Votes p - 1\<rparr>)\<rparr>)))"

text \<open>\<^verbatim>\<open>to\<close> is only stored, never read through, so a \<^verbatim>\<open>nil\<close> recipient does not panic.\<close>

definition SendDirectMessage :: "user_ref \<Rightarrow> user_ref \<Rightarrow> string \<Rightarrow> world \<Rightarrow> error + world" where
  "SendDirectMessage from to content e =
     (let message = \<lparr>From = from, To = to, Content = content\<rparr>
      in case deref (user_objs e) from of
           None \<Rightarrow> Inl NilDereference
         | Some u \<Rightarrow>
             Inr (e\<lparr>Messages := Messages e @ [message],
                    TotalMessages := TotalMessages e + 1,
                    TotalActions := TotalActions e + 1,
                    ActionBreakdown := incr ''Messages'' (ActionBreakdown e),
                    user_objs := store (user_objs e) from (u\<lparr>Actions := Actions u + 1\<rparr>)\<rparr>))"

text \<open>The \<^verbatim>\<open>range\<close> loop of RetrieveMessages, with \<^verbatim>\<open>userMessages\<close> as the accumulator.\<close>

fun RetrieveMessages_loop :: "user_ref \<Rightarrow> Message list \<Rightarrow> Message list \<Rightarrow> Message list" where
  "RetrieveMessages_loop user [] userMessages = userMessages"
| "RetrieveMessages_loop user (message # rest) userMessages =
     RetrieveMessages_loop user rest
       (if To message = user then userMessages @ [message] else userMessages)"

definition RetrieveMessages :: "user_ref \<Rightarrow> world \<Rightarrow> Message list \<times> world" where
  "RetrieveMessages user e = (RetrieveMessages_loop user (Messages e) [], e)"

definition ReplyToMessage :: "user_ref \<Rightarrow> Message \<Rightarrow> string \<Rightarrow> world \<Rightarrow> error + world" where
  "ReplyToMessage user original content e = SendDirectMessage user (From original) content e"

text \<open>
  GetUserFeed ranges over the map \<^verbatim>\<open>e.SubReddits\<close>, whose iteration order Go leaves
  open; the model visits the communities in the order of the association list.
  \<^verbatim>\<open>user.ID\<close> is read once per community, so a \<^verbatim>\<open>nil\<close> user panics only when there is
  a community to visit.
\<close>

fun GetUserFeed_loop :: "User option \<Rightarrow> (string \<times> SubReddit) list \<Rightarrow> post_ref list \<Rightarrow> error + post_ref list" where
  "GetUserFeed_loop u [] feed = Inr feed"
| "GetUserFeed_loop None (s # rest) feed = Inl NilDereference"
| "GetUserFeed_loop (Some u) ((name, subreddit) # rest) feed =
     GetUserFeed_loop (Some u) rest
       (case map_of (SubReddit.Users subreddit) (User.ID u) of
          Some _ \<Rightarrow> feed @ Posts subreddit
        | None \<Rightarrow> feed)"

definition GetUserFeed :: "user_ref \<Rightarrow> world \<Rightarrow> error + (post_ref list \<times> world)" where
  "GetUserFeed user e =
     (case GetUserFeed_loop (deref (user_objs e) user) (SubReddits e) [] of
        Inl err \<Rightarrow> Inl err
      | Inr feed \<Rightarrow> Inr (feed, e))"

section \<open>Sequences of Engine operations\<close>

text \<open>
  One constructor per exported method of the Engine, carrying the arguments of the call,
  and one result constructor per return type. \<open>exec\<close> performs a call; \<open>run\<close> performs a
  sequence of calls, stopping at the first panic.
\<close>

datatype op =
    OpRegisterUser string
  | OpCreateSubReddit string
  | OpJoinSubReddit user_ref string
  | OpLeaveSubReddit user_ref string
  | OpCreatePost user_ref string string
  | OpCreateRepost user_ref post_ref string
  | OpCommentPost user_ref post_ref string
  | OpAddReplyToComment user_ref comment_ref string
  | OpUpvotePost post_ref
  | OpDownvotePost post_ref
  | OpSendDirectMessage user_ref user_ref string
  | OpRetrieveMessages user_ref
  | OpReplyToMessage user_ref Message string
  | OpGetUserFeed user_ref

datatype result =
    RUser user_ref
  | RSubReddit "SubReddit option"
  | RBool bool
  | RPost post_ref
  | RComment comment_ref
  | RMessages "Message list"
  | RFeed "post_ref list"
  | RNone

definition returning :: "('a \<Rightarrow> result) \<Rightarrow> error + ('a \<times> world) \<Rightarrow> error + (result \<times> world)" where
  "returning f x = (case x of Inl err \<Rightarrow> Inl err | Inr (r, e) \<Rightarrow> Inr (f r, e))"

definition returning_nothing :: "error + world \<Rightarrow> error + (result \<times> world)" where
  "returning_nothing x = (case x of Inl err \<Rightarrow> Inl err | Inr e \<Rightarrow> Inr (RNone, e))"

fun exec :: "op \<Rightarrow> world \<Rightarrow> error + (result \<times> world)" where
  "exec (OpRegisterUser username) e = returning RUser (Inr (RegisterUser username e))"
| "exec (OpCreateSubReddit name) e = returning RSubReddit (Inr (CreateSubReddit name e))"
| "exec (OpJoinSubReddit user name) e = returning RBool (JoinSubReddit user name e)"
| "exec (OpLeaveSubReddit user name) e = returning RBool (LeaveSubReddit user name e)"
| "exec (OpCreatePost user name content) e = returning RPost (CreatePost user name content e)"
| "exec (OpCreateRepost user original name) e = returning RPost (CreateRepost user original name e)"
| "exec (OpCommentPost user post content) e = returning RComment (CommentPost user post content e)"
| "exec (OpAddReplyToComment user parent content) e =
     returning RComment (AddReplyToComment user parent content e)"
| "exec (OpUpvotePost post) e = returning_nothing (UpvotePost post e)"
| "exec (OpDownvotePost post) e = returning_nothing (DownvotePost post e)"
| "exec (OpSendDirectMessage from to content) e =
     returning_nothing (SendDirectMessage from to content e)"
| "exec (OpRetrieveMessages user) e = returning RMessages (Inr (RetrieveMessages user e))"
| "exec (OpReplyToMessage user original content) e =
     returning_nothing (ReplyToMessage user original content e)"
| "exec (OpGetUserFeed user) e = returning RFeed (GetUserFeed user e)"

fun run :: "op list \<Rightarrow> world \<Rightarrow> error + world" where
  "run [] e = Inr e"
| "run (p # ps) e = (case exec p e of Inl err \<Rightarrow> Inl err | Inr (r, e') \<Rightarrow> run ps e')"

section \<open>Observations on states and runs\<close>

text \<open>
  What an observer computes from a state or from a run to check the properties below.
  \<open>registered_actions\<close> sums \<^verbatim>\<open>u.Actions\<close> over the values of the map \<^verbatim>\<open>e.Users\<close>.
\<close>

definition registered_actions :: "world \<Rightarrow> int" where
  "registered_actions e =
     sum_list (map (\<lambda>(id, user). case deref (user_objs e) user of None \<Rightarrow> 0 | Some u \<Rightarrow> Actions u)
                   (Engine.Users e))"

definition actions_balanced_after :: "op list \<Rightarrow> bool" where
  "actions_balanced_after ops =
     (case run ops NewEngine of Inl err \<Rightarrow> True | Inr e \<Rightarrow> TotalActions e = registered_actions e)"

text \<open>
  An operation bills \<open>user\<close> when it adds one to \<^verbatim>\<open>TotalActions\<close> and one to the
  \<^verbatim>\<open>Actions\<close> of that user, and leaves every other field of that user and every other
  user as they were.
\<close>

definition bills :: "user_ref \<Rightarrow> world \<Rightarrow> world \<Rightarrow> bool" where
  "bills user e e' \<longleftrightarrow>
     TotalActions e' = TotalActions e + 1 \<and>
     (case deref (user_objs e) user of
        None \<Rightarrow> False
      | Some u \<Rightarrow> user_objs e' = store (user_objs e) user (u\<lparr>Actions := Actions u + 1\<rparr>))"

text \<open>The membership map of the community called \<open>c\<close>, if there is one.\<close>

definition members :: "string \<Rightarrow> world \<Rightarrow> (int \<times> user_ref) list option" where
  "members c e = map_option SubReddit.Users (map_of (SubReddits e) c)"

text \<open>
  The votes of a run: a call of UpvotePost (DownvotePost) is a vote on a post authored by
  \<open>u\<close> when the \<^verbatim>\<open>Author\<close> field of the post it is given is \<open>u\<close>. The counters below
  count such calls along a run, each judged in the state in which it is made.
\<close>

fun upvote_on :: "user_ref \<Rightarrow> op \<Rightarrow> world \<Rightarrow> bool" where
  "upvote_on u (OpUpvotePost post) e =
     (case deref (post_objs e) post of None \<Rightarrow> False | Some p \<Rightarrow> Post.Author p = u)"
| "upvote_on u p e = False"

fun downvote_on :: "user_ref \<Rightarrow> op \<Rightarrow> world \<Rightarrow> bool" where
  "downvote_on u (OpDownvotePost post) e =
     (case deref (post_objs e) post of None \<Rightarrow> False | Some p \<Rightarrow> Post.Author p = u)"
| "downvote_on u p e = False"

fun upvotes_applied :: "user_ref \<Rightarrow> op list \<Rightarrow> world \<Rightarrow> nat" where
  "upvotes_applied u [] e = 0"
| "upvotes_applied u (p # ps) e =
     (case exec p e of
        Inl err \<Rightarrow> 0
      | Inr (r, e') \<Rightarrow> (if upvote_on u p e then 1 else 0) + upvotes_applied u ps e')"

fun downvotes_applied :: "user_ref \<Rightarrow> op list \<Rightarrow> world \<Rightarrow> nat" where
  "downvotes_applied u [] e = 0"
| "downvotes_applied u (p # ps) e =
     (case exec p e of
        Inl err \<Rightarrow> 0
      | Inr (r, e') \<Rightarrow> (if downvote_on u p e then 1 else 0) + downvotes_applied u ps e')"

definition karma_of :: "User list \<Rightarrow> user_ref \<Rightarrow> int" where
  "karma_of h u = (case deref h u of None \<Rightarrow> 0 | Some usr \<Rightarrow> Karma usr)"

text \<open>
  The identifiers issued along a run: the \<^verbatim>\<open>ID\<close> read through each non-nil \<^verbatim>\<open>*Post\<close>
  (respectively \<^verbatim>\<open>*Comment\<close>) at the moment the call returns it, in the order of the calls.
\<close>

fun post_id_of :: "result \<Rightarrow> world \<Rightarrow> int list" where
  "post_id_of (RPost post) e =
     (case deref (post_objs e) post of None \<Rightarrow> [] | Some p \<Rightarrow> [Post.ID p])"
| "post_id_of r e = []"

fun comment_id_of :: "result \<Rightarrow> world \<Rightarrow> int list" where
  "comment_id_of (RComment c) e =
     (case deref (comment_objs e) c of None \<Rightarrow> [] | Some x \<Rightarrow> [Comment.ID x])"
| "comment_id_of r e = []"

fun post_ids_issued :: "op list \<Rightarrow> world \<Rightarrow> int list" where
  "post_ids_issued [] e = []"
| "post_ids_issued (p # ps) e =
     (case exec p e of
        Inl err \<Rightarrow> []
      | Inr (r, e') \<Rightarrow> post_id_of r e' @ post_ids_issued ps e')"

fun comment_ids_issued :: "op list \<Rightarrow> world \<Rightarrow> int list" where
  "comment_ids_issued [] e = []"
| "comment_ids_issued (p # ps) e =
     (case exec p e of
        Inl err \<Rightarrow> []
      | Inr (r, e') \<Rightarrow> comment_id_of r e' @ comment_ids_issued ps e')"

definition ids_from :: "int \<Rightarrow> nat \<Rightarrow> int list" where
  "ids_from k n = map (\<lambda>i. k + int i) [0..<n]"

subsection \<open>Invariants of the reachable states\<close>

definition votes_split :: "world \<Rightarrow> bool" where
  "votes_split e \<longleftrightarrow> TotalVotes e = TotalUpvotes e + TotalDownvotes e"

definition breakdown_ok :: "world \<Rightarrow> bool" where
  "breakdown_ok e \<longleftrightarrow> ActionBreakdown e =
     [(''Posts'', TotalPosts e), (''Comments'', TotalComments e),
      (''Votes'', TotalVotes e), (''Messages'', TotalMessages e)]"

definition actions_ok :: "world \<Rightarrow> bool" where
  "actions_ok e \<longleftrightarrow> TotalActions e = sum_list (map Actions (user_objs e)) + TotalVotes e"

text \<open>The \<open>i\<close>-th user registered has id \<open>i\<close> and is the \<open>i\<close>-th object of the user store.\<close>

definition users_ok :: "world \<Rightarrow> bool" where
  "users_ok e \<longleftrightarrow> Engine.Users e = map (\<lambda>i. (int i + 1, Suc i)) [0..<length (user_objs e)]"

definition ids_below :: "int \<Rightarrow> Post list \<Rightarrow> bool" where
  "ids_below k h = list_all (\<lambda>p. Post.ID p < k) h"

definition post_ids_below :: "world \<Rightarrow> bool" where
  "post_ids_below e \<longleftrightarrow> ids_below (PostID e) (post_objs e)"

section \<open>The store\<close>

lemmas op_defs = RegisterUser_def CreateSubReddit_def JoinSubReddit_def LeaveSubReddit_def
  CreatePost_def CreateRepost_def CommentPost_def AddReplyToComment_def UpvotePost_def
  DownvotePost_def SendDirectMessage_def RetrieveMessages_def ReplyToMessage_def GetUserFeed_def
  returning_def returning_nothing_def alloc_def

lemmas eval_defs = op_defs NewEngine_def deref_def store_def incr_def Let_def

lemma deref_SomeD: "deref h a = Some v \<Longrightarrow> 0 < a \<and> a \<le> length h \<and> h ! (a - 1) = v"
  by (auto simp: deref_def split: if_splits)

lemma length_store [simp]: "length (store h a v) = length h"
  by (simp add: store_def)

lemma deref_store:
  "deref h a = Some x \<Longrightarrow> deref (store h a v) b = (if b = a then Some v else deref h b)"
  by (auto simp: deref_def store_def nth_list_update split: if_splits)

lemma deref_append: "deref (h @ [v]) a = (if a = Suc (length h) then Some v else deref h a)"
  by (auto simp: deref_def nth_append)

lemma deref_zero [simp]: "deref h 0 = None"
  by (simp add: deref_def)

lemma deref_beyond: "length h < a \<Longrightarrow> deref h a = None"
  by (simp add: deref_def)

lemma deref_neq_fresh: "deref h a = Some v \<Longrightarrow> a \<noteq> Suc (length h)"
  by (auto simp: deref_def split: if_splits)

lemma deref_Suc_nth: "i < length h \<Longrightarrow> deref h (Suc i) = Some (h ! i)"
  by (simp add: deref_def)

lemma sum_list_map_update:
  fixes f :: "'a \<Rightarrow> int"
  shows "i < length xs \<Longrightarrow> sum_list (map f (xs[i := v])) = sum_list (map f xs) - f (xs ! i) + f v"
  by (induction xs arbitrary: i) (auto split: nat.splits)

lemma sum_list_map_store:
  fixes f :: "'a \<Rightarrow> int"
  shows "deref h a = Some u \<Longrightarrow> sum_list (map f (store h a v)) = sum_list (map f h) - f u + f v"
  using sum_list_map_update [of "a - 1" h f v]
  by (auto simp: store_def dest!: deref_SomeD)

lemma map_store_same:
  "deref h a = Some u \<Longrightarrow> f v = f u \<Longrightarrow> map f (store h a v) = map f h"
  by (auto simp: store_def map_update list_update_same_conv dest!: deref_SomeD)

lemma list_all_store: "list_all P h \<Longrightarrow> P v \<Longrightarrow> list_all P (store h a v)"
  unfolding store_def list_all_iff using set_update_subset_insert [of h "a - 1" v] by auto

lemma list_all_deref: "list_all P h \<Longrightarrow> deref h a = Some u \<Longrightarrow> P u"
  by (auto simp: list_all_length dest!: deref_SomeD)

subsection \<open>Association lists\<close>

lemma update_idem: "AList.update k v (AList.update k v al) = AList.update k v al"
  by (induction al) auto

lemma delete_absent: "map_of al k = None \<Longrightarrow> AList.delete k al = al"
  by (induction al) (auto split: if_splits)

lemma update_fresh: "k \<notin> fst ` set al \<Longrightarrow> AList.update k v al = al @ [(k, v)]"
  by (induction al) auto

section \<open>Each operation preserves the invariants\<close>

lemma exec_votes_split:
  "exec p e = Inr (r, e') \<Longrightarrow> votes_split e \<Longrightarrow> votes_split e'"
  by (cases p) (auto simp: op_defs votes_split_def Let_def split: option.splits sum.splits)

lemma exec_breakdown_ok:
  "exec p e = Inr (r, e') \<Longrightarrow> breakdown_ok e \<Longrightarrow> breakdown_ok e'"
  by (cases p) (auto simp: op_defs breakdown_ok_def incr_def Let_def split: option.splits sum.splits)

lemma exec_actions_ok:
  "exec p e = Inr (r, e') \<Longrightarrow> actions_ok e \<Longrightarrow> actions_ok e'"
  by (cases p)
     (auto simp: op_defs actions_ok_def sum_list_map_store Let_def split: option.splits sum.splits)

lemma RegisterUser_users_ok:
  assumes "users_ok e"
  shows "users_ok (snd (RegisterUser username e))"
proof -
  let ?n = "length (user_objs e)"
  let ?al = "map (\<lambda>i. (int i + 1, Suc i)) [0..<?n]"
  have "int ?n + 1 \<notin> fst ` set ?al" by auto
  then have "AList.update (int ?n + 1) (Suc ?n) ?al = ?al @ [(int ?n + 1, Suc ?n)]"
    by (rule update_fresh)
  with assms show ?thesis
    by (simp add: users_ok_def RegisterUser_def alloc_def Let_def)
qed

lemma exec_users_ok:
  "exec p e = Inr (r, e') \<Longrightarrow> users_ok e \<Longrightarrow> users_ok e'"
proof (cases p)
  case (OpRegisterUser username)
  assume "exec p e = Inr (r, e')" "users_ok e"
  with OpRegisterUser RegisterUser_users_ok [of e username] show ?thesis
    by (auto simp: returning_def split: prod.splits)
qed (auto simp: op_defs users_ok_def Let_def split: option.splits sum.splits)

lemma ids_below_store: "ids_below k h \<Longrightarrow> Post.ID v < k \<Longrightarrow> ids_below k (store h a v)"
  unfolding ids_below_def by (rule list_all_store)

lemma ids_below_deref: "ids_below k h \<Longrightarrow> deref h a = Some u \<Longrightarrow> Post.ID u < k"
  unfolding ids_below_def by (rule list_all_deref)

lemma ids_below_alloc: "ids_below k h \<Longrightarrow> Post.ID v = k \<Longrightarrow> ids_below (k + 1) (h @ [v])"
  unfolding ids_below_def by (induction h) auto

lemma exec_post_ids_below:
  "exec p e = Inr (r, e') \<Longrightarrow> post_ids_below e \<Longrightarrow> post_ids_below e'"
  apply (cases p)
  apply (auto simp: op_defs post_ids_below_def Let_def ids_below_alloc
           split: option.splits sum.splits intro!: ids_below_store)
  apply (erule (1) ids_below_deref)+
  done

lemma NewEngine_invs:
  "votes_split NewEngine" "breakdown_ok NewEngine" "actions_ok NewEngine" "users_ok NewEngine"
  "post_ids_below NewEngine"
  by (simp_all add: NewEngine_def votes_split_def breakdown_ok_def actions_ok_def users_ok_def
        post_ids_below_def ids_below_def)

lemma run_votes_split: "run ops e = Inr e' \<Longrightarrow> votes_split e \<Longrightarrow> votes_split e'"
  by (induction ops arbitrary: e) (auto split: sum.splits intro: exec_votes_split)

lemma run_breakdown_ok: "run ops e = Inr e' \<Longrightarrow> breakdown_ok e \<Longrightarrow> breakdown_ok e'"
  by (induction ops arbitrary: e) (auto split: sum.splits intro: exec_breakdown_ok)

lemma run_actions_ok: "run ops e = Inr e' \<Longrightarrow> actions_ok e \<Longrightarrow> actions_ok e'"
  by (induction ops arbitrary: e) (auto split: sum.splits intro: exec_actions_ok)

lemma run_users_ok: "run ops e = Inr e' \<Longrightarrow> users_ok e \<Longrightarrow> users_ok e'"
  by (induction ops arbitrary: e) (auto split: sum.splits intro: exec_users_ok)

lemma run_post_ids_below: "run ops e = Inr e' \<Longrightarrow> post_ids_below e \<Longrightarrow> post_ids_below e'"
  by (induction ops arbitrary: e) (auto split: sum.splits intro: exec_post_ids_below)

lemma registered_actions_heap:
  assumes "users_ok e"
  shows "registered_actions e = sum_list (map Actions (user_objs e))"
proof -
  let ?h = "user_objs e"
  have "map (\<lambda>(id, user). case deref ?h user of None \<Rightarrow> 0 | Some u \<Rightarrow> Actions u)
            (map (\<lambda>i. (int i + 1, Suc i)) [0..<length ?h]) = map Actions ?h"
    by (rule nth_equalityI) (simp_all add: deref_Suc_nth)
  with assms show ?thesis
    by (simp add: registered_actions_def users_ok_def)
qed

subsection \<open>Karma\<close>

lemma karma_of_store:
  "deref h a = Some x \<Longrightarrow> karma_of (store h a v) u = (if u = a then Karma v else karma_of h u)"
  by (simp add: karma_of_def deref_store)

lemma karma_of_append:
  "karma_of (h @ [v]) u = (if u = Suc (length h) then Karma v else karma_of h u)"
  by (simp add: karma_of_def deref_append)

lemma karma_of_Some: "deref h a = Some x \<Longrightarrow> karma_of h a = Karma x"
  by (simp add: karma_of_def)

lemma karma_of_fresh: "karma_of h (Suc (length h)) = 0"
  by (simp add: karma_of_def deref_def)

lemma exec_karma:
  "exec p e = Inr (r, e') \<Longrightarrow>
   karma_of (user_objs e') u =
     karma_of (user_objs e) u + (if upvote_on u p e then 1 else 0)
       - (if downvote_on u p e then 1 else 0)"
  by (cases p)
     (auto simp: op_defs karma_of_store karma_of_append karma_of_Some karma_of_fresh Let_def
           split: option.splits sum.splits)

lemma exec_user_kept:
  "exec p e = Inr (r, e') \<and> deref (user_objs e) u = Some x \<Longrightarrow>
     \<exists>y. deref (user_objs e') u = Some y"
  by (cases p)
     (auto simp: op_defs deref_store deref_append Let_def split: option.splits sum.splits)

lemma run_karma:
  "run ops e = Inr e' \<Longrightarrow>
   karma_of (user_objs e') u =
     karma_of (user_objs e) u + int (upvotes_applied u ops e) - int (downvotes_applied u ops e)"
proof (induction ops arbitrary: e)
  case Nil
  then show ?case by simp
next
  case (Cons p ps)
  from Cons.prems obtain r e1 where ex: "exec p e = Inr (r, e1)" and rn: "run ps e1 = Inr e'"
    by (auto split: sum.splits)
  from Cons.IH [OF rn] exec_karma [OF ex, of u] ex show ?case
    by simp
qed

subsection \<open>Identifiers\<close>

lemma exec_post_id:
  "exec p e = Inr (r, e') \<Longrightarrow>
     post_id_of r e' = [] \<and> PostID e' = PostID e \<or>
     post_id_of r e' = [PostID e] \<and> PostID e' = PostID e + 1"
  by (cases p)
     (auto simp: op_defs Let_def deref_append split: option.splits sum.splits)

lemma exec_comment_id:
  "exec p e = Inr (r, e') \<Longrightarrow>
     comment_id_of r e' = [] \<and> CommentID e' = CommentID e \<or>
     comment_id_of r e' = [CommentID e] \<and> CommentID e' = CommentID e + 1"
  by (cases p)
     (auto simp: op_defs Let_def deref_append split: option.splits sum.splits)

lemma ids_from_Cons: "ids_from k (Suc n) = k # ids_from (k + 1) n"
proof -
  have "map (\<lambda>i. k + int i) [0..<Suc n] = (k + int 0) # map ((\<lambda>i. k + int i) \<circ> Suc) [0..<n]"
    unfolding map_Suc_upt [symmetric] upt_conv_Cons [OF zero_less_Suc] by simp
  then show ?thesis by (simp add: ids_from_def comp_def add.assoc)
qed

lemma length_ids_from: "length (ids_from k n) = n"
  by (simp add: ids_from_def)

lemma ids_from_upto: "ids_from 1 n = [1..int n]"
proof (induction n)
  case 0
  then show ?case by (simp add: ids_from_def)
next
  case (Suc n)
  have "[1..int (Suc n)] = [1..int n] @ [int n + 1]"
    using upto_rec2 [of 1 "int n + 1"] by (simp add: add.commute)
  with Suc show ?case by (simp add: ids_from_def add.commute)
qed

lemma sorted_distinct_upto: "sorted_wrt (<) [i..j] \<and> distinct [i..j]"
  by (simp add: strict_sorted_iff [symmetric] sorted_wrt_iff_nth_less)

lemma post_ids_issued_from: "\<exists>n. post_ids_issued ops e = ids_from (PostID e) n"
proof (induction ops arbitrary: e)
  case Nil
  have "post_ids_issued [] e = ids_from (PostID e) 0" by (simp add: ids_from_def)
  then show ?case ..
next
  case (Cons p ps)
  show ?case
  proof (cases "exec p e")
    case (Inl err)
    then have "post_ids_issued (p # ps) e = ids_from (PostID e) 0" by (simp add: ids_from_def)
    then show ?thesis ..
  next
    case (Inr x)
    then obtain r e1 where ex: "exec p e = Inr (r, e1)" by (cases x) auto
    from Cons.IH [of e1] obtain n where n: "post_ids_issued ps e1 = ids_from (PostID e1) n" ..
    from exec_post_id [OF ex] show ?thesis
    proof
      assume "post_id_of r e1 = [] \<and> PostID e1 = PostID e"
      with n ex have "post_ids_issued (p # ps) e = ids_from (PostID e) n" by simp
      then show ?thesis ..
    next
      assume "post_id_of r e1 = [PostID e] \<and> PostID e1 = PostID e + 1"
      with n ex have "post_ids_issued (p # ps) e = ids_from (PostID e) (Suc n)"
        by (simp add: ids_from_Cons)
      then show ?thesis ..
    qed
  qed
qed

lemma comment_ids_issued_from: "\<exists>n. comment_ids_issued ops e = ids_from (CommentID e) n"
proof (induction ops arbitrary: e)
  case Nil
  have "comment_ids_issued [] e = ids_from (CommentID e) 0" by (simp add: ids_from_def)
  then show ?case ..
next
  case (Cons p ps)
  show ?case
  proof (cases "exec p e")
    case (Inl err)
    then have "comment_ids_issued (p # ps) e = ids_from (CommentID e) 0" by (simp add: ids_from_def)
    then show ?thesis ..
  next
    case (Inr x)
    then obtain r e1 where ex: "exec p e = Inr (r, e1)" by (cases x) auto
    from Cons.IH [of e1] obtain n where n: "comment_ids_issued ps e1 = ids_from (CommentID e1) n" ..
    from exec_comment_id [OF ex] show ?thesis
    proof
      assume "comment_id_of r e1 = [] \<and> CommentID e1 = CommentID e"
      with n ex have "comment_ids_issued (p # ps) e = ids_from (CommentID e) n" by simp
      then show ?thesis ..
    next
      assume "comment_id_of r e1 = [CommentID e] \<and> CommentID e1 = CommentID e + 1"
      with n ex have "comment_ids_issued (p # ps) e = ids_from (CommentID e) (Suc n)"
        by (simp add: ids_from_Cons)
      then show ?thesis ..
    qed
  qed
qed

section \<open>Properties of the Engine\<close>

subsection \<open>Counters\<close>

text \<open>
  \<^bold>\<open>C1\<close>, as stated: after every sequence of Engine operations \<^verbatim>\<open>TotalActions\<close> equals the
  sum of the \<^verbatim>\<open>Actions\<close> fields of the registered users. It fails as soon as a vote is
  cast: UpvotePost has no voter argument and increments \<^verbatim>\<open>TotalActions\<close> alone. After
  registering a user, creating a community, posting once and upvoting the post, the
  total is 2 and the only user has 1 action.
\<close>

theorem TotalActions_neq_user_actions:
  "\<not> actions_balanced_after
       [OpRegisterUser ''a'', OpCreateSubReddit ''r1'', OpCreatePost 1 ''r1'' ''hi'', OpUpvotePost 1]"
  by (simp add: actions_balanced_after_def registered_actions_def eval_defs)

text \<open>
  \<^bold>\<open>C1\<close>, amended: after every sequence of Engine operations starting from NewEngine, in
  which every user is one that RegisterUser returned, \<^verbatim>\<open>TotalActions\<close> equals the sum of
  the \<^verbatim>\<open>Actions\<close> fields of all registered users plus \<^verbatim>\<open>TotalVotes\<close>. JoinSubReddit,
  LeaveSubReddit, CreatePost, CreateRepost, CommentPost, AddReplyToComment,
  SendDirectMessage and ReplyToMessage, when they succeed, each increment exactly one
  user's action count (the acting user's) and the global total together; UpvotePost and
  DownvotePost increment the global total and leave every user's action count as it
  was; RegisterUser and CreateSubReddit change neither the total nor the action count
  of any existing user, and a new user starts with 0 actions.
\<close>

theorem TotalActions_eq_user_actions_plus_votes:
  "(run ops NewEngine = Inr e \<longrightarrow> TotalActions e = registered_actions e + TotalVotes e) \<and>
   (JoinSubReddit user name e = Inr (True, e1) \<longrightarrow> bills user e e1) \<and>
   (LeaveSubReddit user name e = Inr (True, e2) \<longrightarrow> bills user e e2) \<and>
   (CreatePost user name content e = Inr (post, e3) \<and> post \<noteq> 0 \<longrightarrow> bills user e e3) \<and>
   (CreateRepost user original name e = Inr (repost, e4) \<and> repost \<noteq> 0 \<longrightarrow>
      bills user e e4) \<and>
   (CommentPost user original content e = Inr (c, e5) \<longrightarrow> bills user e e5) \<and>
   (AddReplyToComment user parent content e = Inr (r, e6) \<longrightarrow> bills user e e6) \<and>
   (SendDirectMessage user recipient content e = Inr e7 \<longrightarrow> bills user e e7) \<and>
   (ReplyToMessage user message content e = Inr e8 \<longrightarrow> bills user e e8) \<and>
   (UpvotePost original e = Inr eu \<longrightarrow>
      TotalActions eu = TotalActions e + 1 \<and>
      map Actions (user_objs eu) = map Actions (user_objs e)) \<and>
   (DownvotePost original e = Inr ed \<longrightarrow>
      TotalActions ed = TotalActions e + 1 \<and>
      map Actions (user_objs ed) = map Actions (user_objs e)) \<and>
   (RegisterUser username e = (new, e9) \<longrightarrow>
      TotalActions e9 = TotalActions e \<and>
      map Actions (user_objs e9) = map Actions (user_objs e) @ [0]) \<and>
   (CreateSubReddit newname e = (created, e10) \<longrightarrow>
      TotalActions e10 = TotalActions e \<and> user_objs e10 = user_objs e)"
proof (intro conjI impI)
  assume r: "run ops NewEngine = Inr e"
  have "actions_ok e"
    using r NewEngine_invs(3) by (rule run_actions_ok)
  moreover have "users_ok e"
    using r NewEngine_invs(4) by (rule run_users_ok)
  ultimately show "TotalActions e = registered_actions e + TotalVotes e"
    by (simp add: actions_ok_def registered_actions_heap)
qed (auto simp: op_defs bills_def Let_def map_store_same split: option.splits)

theorem TotalActions_eq_user_actions_plus_votes_witness:
  "\<exists>e e1 e2 e3 e4 c e5 r e6 e7 e8 eu ed e9 e10.
     run [OpRegisterUser ''a'', OpCreateSubReddit ''r1'', OpJoinSubReddit 1 ''r1'',
          OpCreatePost 1 ''r1'' ''hi'', OpCommentPost 1 1 ''c1'', OpUpvotePost 1,
          OpDownvotePost 1] NewEngine = Inr e \<and>
     TotalActions e = 5 \<and> registered_actions e = 3 \<and> TotalVotes e = 2 \<and>
     JoinSubReddit 1 ''r1'' e = Inr (True, e1) \<and> bills 1 e e1 \<and>
     LeaveSubReddit 1 ''r1'' e = Inr (True, e2) \<and> bills 1 e e2 \<and>
     CreatePost 1 ''r1'' ''x'' e = Inr (2, e3) \<and> bills 1 e e3 \<and>
     CreateRepost 1 1 ''r1'' e = Inr (2, e4) \<and> bills 1 e e4 \<and>
     CommentPost 1 1 ''x'' e = Inr (c, e5) \<and> bills 1 e e5 \<and>
     AddReplyToComment 1 1 ''x'' e = Inr (r, e6) \<and> bills 1 e e6 \<and>
     SendDirectMessage 1 1 ''x'' e = Inr e7 \<and> bills 1 e e7 \<and>
     ReplyToMessage 1 \<lparr>From = 1, To = 1, Content = ''m''\<rparr> ''x'' e = Inr e8 \<and> bills 1 e e8 \<and>
     UpvotePost 1 e = Inr eu \<and> TotalActions eu = 6 \<and> map Actions (user_objs eu) = [3] \<and>
     DownvotePost 1 e = Inr ed \<and> TotalActions ed = 6 \<and> map Actions (user_objs ed) = [3] \<and>
     RegisterUser ''b'' e = (2, e9) \<and> TotalActions e9 = 5 \<and>
     map Actions (user_objs e9) = [3, 0] \<and>
     CreateSubReddit ''r2'' e = (Some \<lparr>Name = ''r2'', Posts = [], SubReddit.Users = []\<rparr>, e10) \<and>
     TotalActions e10 = 5 \<and> map Actions (user_objs e10) = [3]"
proof -
  let ?ops = "[OpRegisterUser ''a'', OpCreateSubReddit ''r1'', OpJoinSubReddit 1 ''r1'',
               OpCreatePost 1 ''r1'' ''hi'', OpCommentPost 1 1 ''c1'', OpUpvotePost 1,
               OpDownvotePost 1]"
  let ?m = "\<lparr>From = 1, To = 1, Content = ''m''\<rparr>"
  let ?s = "\<lparr>Name = ''r2'', Posts = [], SubReddit.Users = []\<rparr>"
  have "\<exists>e sr u p cm. run ?ops NewEngine = Inr e \<and> registered_actions e = 3 \<and>
          TotalVotes e = 2 \<and> map Actions (user_objs e) = [3] \<and>
          map_of (SubReddits e) ''r1'' = Some sr \<and> map_of (SubReddits e) ''r2'' = None \<and>
          deref (user_objs e) 1 = Some u \<and> deref (user_objs e) (Post.Author p) = Some u \<and>
          deref (post_objs e) 1 = Some p \<and>
          deref (comment_objs e) 1 = Some cm \<and>
          length (user_objs e) = 1 \<and> length (post_objs e) = 1"
    by (simp add: registered_actions_def eval_defs)
  then obtain e sr u p cm where
      e: "run ?ops NewEngine = Inr e" and v: "registered_actions e = 3" "TotalVotes e = 2"
      and a: "map Actions (user_objs e) = [3]"
      and f: "map_of (SubReddits e) ''r1'' = Some sr" "map_of (SubReddits e) ''r2'' = None"
        "deref (user_objs e) 1 = Some u" "deref (user_objs e) (Post.Author p) = Some u"
        "deref (post_objs e) 1 = Some p"
        "deref (comment_objs e) 1 = Some cm" "length (user_objs e) = 1"
        "length (post_objs e) = 1"
    by (elim exE conjE)
  from f obtain e1 where s1: "JoinSubReddit 1 ''r1'' e = Inr (True, e1)"
    by (simp add: JoinSubReddit_def)
  from f obtain e2 where s2: "LeaveSubReddit 1 ''r1'' e = Inr (True, e2)"
    by (simp add: LeaveSubReddit_def)
  from f obtain e3 where s3: "CreatePost 1 ''r1'' ''x'' e = Inr (2, e3)"
    by (simp add: CreatePost_def alloc_def)
  from f obtain e4 where s4: "CreateRepost 1 1 ''r1'' e = Inr (2, e4)"
    by (simp add: CreateRepost_def alloc_def)
  from f obtain c e5 where s5: "CommentPost 1 1 ''x'' e = Inr (c, e5)"
    by (simp add: CommentPost_def alloc_def Let_def)
  from f obtain r e6 where s6: "AddReplyToComment 1 1 ''x'' e = Inr (r, e6)"
    by (simp add: AddReplyToComment_def alloc_def Let_def)
  from f obtain e7 where s7: "SendDirectMessage 1 1 ''x'' e = Inr e7"
    by (simp add: SendDirectMessage_def Let_def)
  from f obtain e8 where s8: "ReplyToMessage 1 ?m ''x'' e = Inr e8"
    by (simp add: ReplyToMessage_def SendDirectMessage_def Let_def)
  from f obtain eu where su: "UpvotePost 1 e = Inr eu"
    by (simp add: UpvotePost_def)
  from f obtain ed where sd: "DownvotePost 1 e = Inr ed"
    by (simp add: DownvotePost_def)
  from f obtain e9 where s9: "RegisterUser ''b'' e = (2, e9)"
    by (simp add: RegisterUser_def alloc_def Let_def)
  from f obtain e10 where s10: "CreateSubReddit ''r2'' e = (Some ?s, e10)"
    by (simp add: CreateSubReddit_def Let_def)
  note T = TotalActions_eq_user_actions_plus_votes [where ops = ?ops and e = e and user = 1 and name = "''r1''" and ?e1.0 = e1
      and ?e2.0 = e2 and content = "''x''" and post = 2 and ?e3.0 = e3 and original = 1
      and repost = 2 and ?e4.0 = e4 and c = c and ?e5.0 = e5 and parent = 1 and r = r
      and ?e6.0 = e6 and recipient = 1 and ?e7.0 = e7 and message = ?m and ?e8.0 = e8
      and eu = eu and ed = ed and username = "''b''" and new = 2 and ?e9.0 = e9
      and newname = "''r2''" and created = "Some ?s" and ?e10.0 = e10]
  have two: "(2::nat) \<noteq> 0" by simp
  from T e have t: "TotalActions e = registered_actions e + TotalVotes e" by blast
  from T s1 have b1: "bills 1 e e1" by blast
  from T s2 have b2: "bills 1 e e2" by blast
  from T s3 two have b3: "bills 1 e e3" by blast
  from T s4 two have b4: "bills 1 e e4" by blast
  from T s5 have b5: "bills 1 e e5" by blast
  from T s6 have b6: "bills 1 e e6" by blast
  from T s7 have b7: "bills 1 e e7" by blast
  from T s8 have b8: "bills 1 e e8" by blast
  from T su have u: "TotalActions eu = TotalActions e + 1 \<and>
      map Actions (user_objs eu) = map Actions (user_objs e)" by blast
  from T sd have d: "TotalActions ed = TotalActions e + 1 \<and>
      map Actions (user_objs ed) = map Actions (user_objs e)" by blast
  from T s9 have n: "TotalActions e9 = TotalActions e \<and>
      map Actions (user_objs e9) = map Actions (user_objs e) @ [0]" by blast
  from T s10 have k: "TotalActions e10 = TotalActions e \<and> user_objs e10 = user_objs e" by blast
  from t v have t5: "TotalActions e = 5" by simp
  from u t5 a have vu: "TotalActions eu = 6" "map Actions (user_objs eu) = [3]" by simp_all
  from d t5 a have vd: "TotalActions ed = 6" "map Actions (user_objs ed) = [3]" by simp_all
  from n t5 a have vn: "TotalActions e9 = 5" "map Actions (user_objs e9) = [3, 0]" by simp_all
  from k t5 a have vk: "TotalActions e10 = 5" "map Actions (user_objs e10) = [3]" by simp_all
  show ?thesis
    by (intro exI conjI)
       (rule e v t5 s1 b1 s2 b2 s3 b3 s4 b4 s5 b5 s6 b6 s7 b7 s8 b8 su sd s9 s10 vu vd vn vk)+
qed

text \<open>
  \<^bold>\<open>C2\<close>: after every step of any sequence of Engine operations starting from NewEngine,
  \<^verbatim>\<open>TotalVotes == TotalUpvotes + TotalDownvotes\<close>; each vote operation increments
  \<^verbatim>\<open>TotalVotes\<close> and exactly one of the two directional counters. (Every prefix of a
  sequence is a sequence, so the statement for all \<open>ops\<close> is the statement at every step.)
\<close>

theorem TotalVotes_eq_up_plus_down:
  "(run ops NewEngine = Inr e \<longrightarrow> TotalVotes e = TotalUpvotes e + TotalDownvotes e) \<and>
   (UpvotePost post e = Inr eu \<longrightarrow>
      TotalVotes eu = TotalVotes e + 1 \<and> TotalUpvotes eu = TotalUpvotes e + 1 \<and>
      TotalDownvotes eu = TotalDownvotes e) \<and>
   (DownvotePost post e = Inr ed \<longrightarrow>
      TotalVotes ed = TotalVotes e + 1 \<and> TotalDownvotes ed = TotalDownvotes e + 1 \<and>
      TotalUpvotes ed = TotalUpvotes e)"
proof (intro conjI impI)
  assume "run ops NewEngine = Inr e"
  then have "votes_split e" using NewEngine_invs(1) by (rule run_votes_split)
  then show "TotalVotes e = TotalUpvotes e + TotalDownvotes e" by (simp add: votes_split_def)
qed (auto simp: UpvotePost_def DownvotePost_def split: option.splits)

theorem TotalVotes_eq_up_plus_down_witness:
  "\<exists>e eu ed.
     run [OpRegisterUser ''a'', OpCreateSubReddit ''r1'', OpCreatePost 1 ''r1'' ''hi'',
          OpUpvotePost 1, OpDownvotePost 1, OpUpvotePost 1] NewEngine = Inr e \<and>
     UpvotePost 1 e = Inr eu \<and> DownvotePost 1 e = Inr ed \<and>
     TotalVotes e = TotalUpvotes e + TotalDownvotes e \<and> TotalVotes e = 3 \<and>
     TotalVotes eu = 4 \<and> TotalUpvotes eu = 3 \<and> TotalDownvotes eu = 1 \<and>
     TotalVotes ed = 4 \<and> TotalUpvotes ed = 2 \<and> TotalDownvotes ed = 2"
proof -
  let ?ops = "[OpRegisterUser ''a'', OpCreateSubReddit ''r1'', OpCreatePost 1 ''r1'' ''hi'',
               OpUpvotePost 1, OpDownvotePost 1, OpUpvotePost 1]"
  have "\<exists>e eu ed. run ?ops NewEngine = Inr e \<and> UpvotePost 1 e = Inr eu \<and>
          DownvotePost 1 e = Inr ed \<and> TotalUpvotes e = 2 \<and> TotalDownvotes e = 1"
    by (simp add: eval_defs)
  then obtain e eu ed where e: "run ?ops NewEngine = Inr e" "UpvotePost 1 e = Inr eu"
      "DownvotePost 1 e = Inr ed" "TotalUpvotes e = 2" "TotalDownvotes e = 1"
    by blast
  from TotalVotes_eq_up_plus_down [of ?ops e 1 eu ed] e
  have "TotalVotes e = 3 \<and>
        TotalVotes eu = 4 \<and> TotalUpvotes eu = 3 \<and> TotalDownvotes eu = 1 \<and>
        TotalVotes ed = 4 \<and> TotalUpvotes ed = 2 \<and> TotalDownvotes ed = 2"
    by simp
  with e show ?thesis by auto
qed

text \<open>
  \<^bold>\<open>C10\<close>: after every sequence of Engine operations starting from NewEngine, the per-kind
  action breakdown mirrors the aggregate counters: \<^verbatim>\<open>ActionBreakdown["Posts"] == TotalPosts\<close>,
  \<^verbatim>\<open>ActionBreakdown["Comments"] == TotalComments\<close>, \<^verbatim>\<open>ActionBreakdown["Votes"] == TotalVotes\<close>
  and \<^verbatim>\<open>ActionBreakdown["Messages"] == TotalMessages\<close>.
\<close>

theorem ActionBreakdown_mirrors_totals:
  assumes "run ops NewEngine = Inr e"
  shows "map_of (ActionBreakdown e) ''Posts'' = Some (TotalPosts e) \<and>
         map_of (ActionBreakdown e) ''Comments'' = Some (TotalComments e) \<and>
         map_of (ActionBreakdown e) ''Votes'' = Some (TotalVotes e) \<and>
         map_of (ActionBreakdown e) ''Messages'' = Some (TotalMessages e)"
proof -
  have "breakdown_ok e" using assms NewEngine_invs(2) by (rule run_breakdown_ok)
  then show ?thesis by (simp add: breakdown_ok_def)
qed

theorem ActionBreakdown_mirrors_totals_witness:
  "\<exists>e. run [OpRegisterUser ''a'', OpRegisterUser ''b'', OpCreateSubReddit ''r1'',
            OpCreatePost 1 ''r1'' ''hi'', OpCreateRepost 2 1 ''r1'', OpCommentPost 2 1 ''nice'',
            OpUpvotePost 1, OpDownvotePost 2, OpUpvotePost 2,
            OpSendDirectMessage 1 2 ''hello''] NewEngine = Inr e \<and>
       TotalPosts e = 2 \<and> TotalComments e = 1 \<and> TotalVotes e = 3 \<and> TotalMessages e = 1 \<and>
       map_of (ActionBreakdown e) ''Posts'' = Some 2 \<and>
       map_of (ActionBreakdown e) ''Comments'' = Some 1 \<and>
       map_of (ActionBreakdown e) ''Votes'' = Some 3 \<and>
       map_of (ActionBreakdown e) ''Messages'' = Some 1"
proof -
  let ?ops = "[OpRegisterUser ''a'', OpRegisterUser ''b'', OpCreateSubReddit ''r1'',
               OpCreatePost 1 ''r1'' ''hi'', OpCreateRepost 2 1 ''r1'', OpCommentPost 2 1 ''nice'',
               OpUpvotePost 1, OpDownvotePost 2, OpUpvotePost 2,
               OpSendDirectMessage 1 2 ''hello'']"
  have "\<exists>e. run ?ops NewEngine = Inr e \<and>
          TotalPosts e = 2 \<and> TotalComments e = 1 \<and> TotalVotes e = 3 \<and> TotalMessages e = 1"
    by (simp add: eval_defs)
  then obtain e where e: "run ?ops NewEngine = Inr e"
      "TotalPosts e = 2" "TotalComments e = 1" "TotalVotes e = 3" "TotalMessages e = 1"
    by blast
  from ActionBreakdown_mirrors_totals [OF e(1)] e show ?thesis by auto
qed

subsection \<open>Karma\<close>

text \<open>
  \<^bold>\<open>C3\<close>: for every user \<open>u\<close> and after every sequence of Engine operations starting from
  NewEngine, \<^verbatim>\<open>u.Karma\<close> equals the number of upvotes applied to posts authored by \<open>u\<close>
  minus the number of downvotes applied to posts authored by \<open>u\<close>. Karma is 0 at
  registration, and a successful operation changes the karma of an existing user only
  when it is a vote on one of that user's posts, by exactly +1 (upvote) or -1 (downvote).
\<close>

theorem Karma_eq_net_votes:
  "(run ops NewEngine = Inr e \<and> deref (user_objs e) u = Some usr \<longrightarrow>
      Karma usr =
        int (upvotes_applied u ops NewEngine) - int (downvotes_applied u ops NewEngine)) \<and>
   (RegisterUser username e0 = (new, e1) \<longrightarrow>
      map_option Karma (deref (user_objs e1) new) = Some 0) \<and>
   (exec p e0 = Inr (r, e2) \<and> deref (user_objs e0) u = Some usr0 \<longrightarrow>
      map_option Karma (deref (user_objs e2) u) =
        Some (Karma usr0 + (if upvote_on u p e0 then 1 else 0)
                - (if downvote_on u p e0 then 1 else 0)))"
proof (intro conjI impI)
  assume a: "run ops NewEngine = Inr e \<and> deref (user_objs e) u = Some usr"
  have "karma_of (user_objs NewEngine) u = 0"
    by (simp add: karma_of_def NewEngine_def deref_def)
  with run_karma [of ops NewEngine e u] a
  show "Karma usr =
          int (upvotes_applied u ops NewEngine) - int (downvotes_applied u ops NewEngine)"
    by (simp add: karma_of_Some)
next
  assume "RegisterUser username e0 = (new, e1)"
  then show "map_option Karma (deref (user_objs e1) new) = Some 0"
    by (auto simp: RegisterUser_def alloc_def Let_def deref_append)
next
  assume a: "exec p e0 = Inr (r, e2) \<and> deref (user_objs e0) u = Some usr0"
  then obtain y where y: "deref (user_objs e2) u = Some y"
    using exec_user_kept by blast
  from a exec_karma [of p e0 r e2 u] y
  show "map_option Karma (deref (user_objs e2) u) =
          Some (Karma usr0 + (if upvote_on u p e0 then 1 else 0)
                  - (if downvote_on u p e0 then 1 else 0))"
    by (simp add: karma_of_def)
qed

theorem Karma_eq_net_votes_witness:
  "\<exists>e usr e1 e2.
     run [OpRegisterUser ''a'', OpRegisterUser ''b'', OpCreateSubReddit ''r1'',
          OpCreatePost 1 ''r1'' ''hi'', OpCreatePost 2 ''r1'' ''yo'', OpUpvotePost 1,
          OpDownvotePost 2, OpDownvotePost 1, OpDownvotePost 1] NewEngine = Inr e \<and>
     deref (user_objs e) 1 = Some usr \<and>
     upvotes_applied 1
       [OpRegisterUser ''a'', OpRegisterUser ''b'', OpCreateSubReddit ''r1'',
        OpCreatePost 1 ''r1'' ''hi'', OpCreatePost 2 ''r1'' ''yo'', OpUpvotePost 1,
        OpDownvotePost 2, OpDownvotePost 1, OpDownvotePost 1] NewEngine = 1 \<and>
     downvotes_applied 1
       [OpRegisterUser ''a'', OpRegisterUser ''b'', OpCreateSubReddit ''r1'',
        OpCreatePost 1 ''r1'' ''hi'', OpCreatePost 2 ''r1'' ''yo'', OpUpvotePost 1,
        OpDownvotePost 2, OpDownvotePost 1, OpDownvotePost 1] NewEngine = 2 \<and>
     Karma usr = - 1 \<and>
     RegisterUser ''c'' e = (3, e1) \<and> map_option Karma (deref (user_objs e1) 3) = Some 0 \<and>
     exec (OpUpvotePost 1) e = Inr (RNone, e2) \<and>
     map_option Karma (deref (user_objs e2) 1) = Some 0"
proof -
  let ?ops = "[OpRegisterUser ''a'', OpRegisterUser ''b'', OpCreateSubReddit ''r1'',
               OpCreatePost 1 ''r1'' ''hi'', OpCreatePost 2 ''r1'' ''yo'', OpUpvotePost 1,
               OpDownvotePost 2, OpDownvotePost 1, OpDownvotePost 1]"
  have "\<exists>e usr e1 e2. run ?ops NewEngine = Inr e \<and> deref (user_objs e) 1 = Some usr \<and>
          RegisterUser ''c'' e = (3, e1) \<and> exec (OpUpvotePost 1) e = Inr (RNone, e2) \<and>
          upvote_on 1 (OpUpvotePost 1) e"
    by (simp add: eval_defs)
  then obtain e usr e1 e2 where e: "run ?ops NewEngine = Inr e" "deref (user_objs e) 1 = Some usr"
      "RegisterUser ''c'' e = (3, e1)" "exec (OpUpvotePost 1) e = Inr (RNone, e2)"
      "upvote_on 1 (OpUpvotePost 1) e"
    by (elim exE conjE)
  have up: "upvotes_applied 1 ?ops NewEngine = 1"
    by (simp add: eval_defs)
  have down: "downvotes_applied 1 ?ops NewEngine = 2"
    by (simp add: eval_defs)
  from Karma_eq_net_votes [of ?ops e 1 usr "''c''" e 3 e1 "OpUpvotePost 1" RNone e2 usr] e
  have k: "Karma usr =
             int (upvotes_applied 1 ?ops NewEngine) - int (downvotes_applied 1 ?ops NewEngine)"
    and n: "map_option Karma (deref (user_objs e1) 3) = Some 0"
    and v: "map_option Karma (deref (user_objs e2) 1) =
              Some (Karma usr + (if upvote_on 1 (OpUpvotePost 1) e then 1 else 0)
                      - (if downvote_on 1 (OpUpvotePost 1) e then 1 else 0))"
    by blast+
  from k have k': "Karma usr = - 1"
    unfolding up down by simp
  from v e(5) k' have "map_option Karma (deref (user_objs e2) 1) = Some 0"
    by simp
  with e up down k' n show ?thesis by blast
qed

subsection \<open>Identifiers\<close>

text \<open>
  \<^bold>\<open>C4\<close>: the Post identifiers and the Comment identifiers issued by the Engine are, in the
  order of issue, 1, 2, 3, ... within their type: each sequence starts at 1, is strictly
  increasing and never repeats, for any sequence of Engine operations. A CreatePost or
  CreateRepost that fails on an unknown community returns \<^verbatim>\<open>nil\<close>, leaves the state as
  it was and consumes no identifier: the identifiers issued afterwards are the same as
  without the failed call.
\<close>

theorem issued_ids_strictly_increasing:
  "post_ids_issued ops NewEngine = [1..int (length (post_ids_issued ops NewEngine))] \<and>
   comment_ids_issued ops NewEngine = [1..int (length (comment_ids_issued ops NewEngine))] \<and>
   sorted_wrt (<) (post_ids_issued ops NewEngine) \<and> distinct (post_ids_issued ops NewEngine) \<and>
   sorted_wrt (<) (comment_ids_issued ops NewEngine) \<and>
   distinct (comment_ids_issued ops NewEngine) \<and>
   (map_of (SubReddits e) name = None \<longrightarrow>
      CreatePost user name content e = Inr (0, e) \<and>
      CreateRepost user original name e = Inr (0, e) \<and>
      post_ids_issued (OpCreatePost user name content # rest) e = post_ids_issued rest e \<and>
      post_ids_issued (OpCreateRepost user original name # rest) e = post_ids_issued rest e)"
proof -
  have p: "post_ids_issued ops NewEngine = [1..int (length (post_ids_issued ops NewEngine))]"
  proof -
    from post_ids_issued_from [of ops NewEngine]
    obtain n where n: "post_ids_issued ops NewEngine = ids_from 1 n"
      by (auto simp: NewEngine_def)
    then have "length (post_ids_issued ops NewEngine) = n" by (simp add: length_ids_from)
    with n show ?thesis by (simp add: ids_from_upto)
  qed
  have c: "comment_ids_issued ops NewEngine =
             [1..int (length (comment_ids_issued ops NewEngine))]"
  proof -
    from comment_ids_issued_from [of ops NewEngine]
    obtain n where n: "comment_ids_issued ops NewEngine = ids_from 1 n"
      by (auto simp: NewEngine_def)
    then have "length (comment_ids_issued ops NewEngine) = n" by (simp add: length_ids_from)
    with n show ?thesis by (simp add: ids_from_upto)
  qed
  have f: "map_of (SubReddits e) name = None \<longrightarrow>
      CreatePost user name content e = Inr (0, e) \<and>
      CreateRepost user original name e = Inr (0, e) \<and>
      post_ids_issued (OpCreatePost user name content # rest) e = post_ids_issued rest e \<and>
      post_ids_issued (OpCreateRepost user original name # rest) e = post_ids_issued rest e"
    by (simp add: CreatePost_def CreateRepost_def returning_def)
  from p c f sorted_distinct_upto [of 1 "int (length (post_ids_issued ops NewEngine))"]
    sorted_distinct_upto [of 1 "int (length (comment_ids_issued ops NewEngine))"]
  show ?thesis by metis
qed

theorem issued_ids_strictly_increasing_witness:
  "post_ids_issued
     [OpRegisterUser ''a'', OpCreateSubReddit ''r1'', OpCreatePost 1 ''r1'' ''p1'',
      OpCreatePost 1 ''zz'' ''lost'', OpCreateRepost 1 1 ''r1'', OpCommentPost 1 1 ''c1'',
      OpAddReplyToComment 1 1 ''c2''] NewEngine = [1, 2] \<and>
   comment_ids_issued
     [OpRegisterUser ''a'', OpCreateSubReddit ''r1'', OpCreatePost 1 ''r1'' ''p1'',
      OpCreatePost 1 ''zz'' ''lost'', OpCreateRepost 1 1 ''r1'', OpCommentPost 1 1 ''c1'',
      OpAddReplyToComment 1 1 ''c2''] NewEngine = [1, 2] \<and>
   map_of (SubReddits NewEngine) ''zz'' = None \<and>
   CreatePost 1 ''zz'' ''lost'' NewEngine = Inr (0, NewEngine) \<and>
   CreateRepost 1 1 ''zz'' NewEngine = Inr (0, NewEngine) \<and>
   post_ids_issued [OpCreatePost 1 ''zz'' ''lost''] NewEngine = [] \<and>
   post_ids_issued [OpCreateRepost 1 1 ''zz''] NewEngine = []"
proof -
  let ?ops = "[OpRegisterUser ''a'', OpCreateSubReddit ''r1'', OpCreatePost 1 ''r1'' ''p1'',
      OpCreatePost 1 ''zz'' ''lost'', OpCreateRepost 1 1 ''r1'', OpCommentPost 1 1 ''c1'',
      OpAddReplyToComment 1 1 ''c2'']"
  have h: "map_of (SubReddits NewEngine) ''zz'' = None"
    by (simp add: NewEngine_def)
  have lp: "length (post_ids_issued ?ops NewEngine) = 2"
    by (simp add: eval_defs)
  have lc: "length (comment_ids_issued ?ops NewEngine) = 2"
    by (simp add: eval_defs)
  have v: "[1..int 2] = [1, 2]"
    by (simp add: upto_rec1)
  have n: "post_ids_issued [] NewEngine = []"
    by simp
  from issued_ids_strictly_increasing [of ?ops NewEngine "''zz''" 1 "''lost''" 1 "[]"] h
  have "post_ids_issued ?ops NewEngine = [1..int (length (post_ids_issued ?ops NewEngine))] \<and>
        comment_ids_issued ?ops NewEngine =
          [1..int (length (comment_ids_issued ?ops NewEngine))] \<and>
        CreatePost 1 ''zz'' ''lost'' NewEngine = Inr (0, NewEngine) \<and>
        CreateRepost 1 1 ''zz'' NewEngine = Inr (0, NewEngine) \<and>
        post_ids_issued [OpCreatePost 1 ''zz'' ''lost''] NewEngine = post_ids_issued [] NewEngine \<and>
        post_ids_issued [OpCreateRepost 1 1 ''zz''] NewEngine = post_ids_issued [] NewEngine"
    by blast
  then show ?thesis
    unfolding lp lc v n using h by blast
qed

subsection \<open>Unknown communities\<close>

text \<open>
  \<^bold>\<open>C5\<close>: in every Engine state, JoinSubReddit, LeaveSubReddit, CreatePost and CreateRepost
  called with a community name that is not in the store return the failure value
  (\<^verbatim>\<open>false\<close>, \<^verbatim>\<open>nil\<close>) and leave the entire state unchanged: no entity is created or
  removed and no counter changes.
\<close>

theorem unknown_community_no_change:
  "map_of (SubReddits e) name = None \<Longrightarrow>
     JoinSubReddit user name e = Inr (False, e) \<and>
     LeaveSubReddit user name e = Inr (False, e) \<and>
     CreatePost user name content e = Inr (0, e) \<and>
     CreateRepost user originalPost name e = Inr (0, e)"
  by (simp add: JoinSubReddit_def LeaveSubReddit_def CreatePost_def CreateRepost_def)

theorem unknown_community_no_change_witness:
  "\<exists>e. run [OpRegisterUser ''a'', OpCreateSubReddit ''r1'', OpCreatePost 1 ''r1'' ''hi'']
           NewEngine = Inr e \<and>
       map_of (SubReddits e) ''r2'' = None \<and>
       JoinSubReddit 1 ''r2'' e = Inr (False, e) \<and>
       LeaveSubReddit 1 ''r2'' e = Inr (False, e) \<and>
       CreatePost 1 ''r2'' ''x'' e = Inr (0, e) \<and>
       CreateRepost 1 1 ''r2'' e = Inr (0, e)"
proof -
  have "\<exists>e. run [OpRegisterUser ''a'', OpCreateSubReddit ''r1'', OpCreatePost 1 ''r1'' ''hi'']
              NewEngine = Inr e \<and> map_of (SubReddits e) ''r2'' = None"
    by (simp add: eval_defs)
  then obtain e where e:
      "run [OpRegisterUser ''a'', OpCreateSubReddit ''r1'', OpCreatePost 1 ''r1'' ''hi'']
         NewEngine = Inr e"
      "map_of (SubReddits e) ''r2'' = None"
    by blast
  from unknown_community_no_change [OF e(2), of 1 "''x''" 1] e show ?thesis by blast
qed

subsection \<open>Reposts\<close>

text \<open>
  \<^bold>\<open>C6\<close>: in a state reached from NewEngine, for every existing destination community,
  every original post and every (non-nil) reposting user, CreateRepost creates a new
  Post whose content equals the original's, whose identifier is freshly allocated and
  distinct from the original's, whose vote count is 0 and whose comment list is empty,
  and appends it to the destination community's post list; the original post is
  unchanged.
\<close>

theorem CreateRepost_copies_content:
  assumes "run ops NewEngine = Inr e"
    and "map_of (SubReddits e) name = Some sr"
    and "deref (post_objs e) originalPost = Some original"
    and "deref (user_objs e) user = Some u"
  shows "\<exists>repost e'.
           CreateRepost user originalPost name e = Inr (repost, e') \<and>
           deref (post_objs e) repost = None \<and>
           deref (post_objs e') repost =
             Some \<lparr>Post.ID = PostID e, Author = user, Content = Post.Content original,
                   Comments = [], Votes = 0\<rparr> \<and>
           PostID e \<noteq> Post.ID original \<and>
           repost \<noteq> originalPost \<and>
           map_of (SubReddits e') name = Some (sr\<lparr>Posts := Posts sr @ [repost]\<rparr>) \<and>
           deref (post_objs e') originalPost = Some original"
proof -
  have "post_ids_below e" using assms(1) NewEngine_invs(5) by (rule run_post_ids_below)
  then have "Post.ID original < PostID e"
    using assms(3) by (auto simp: post_ids_below_def intro: ids_below_deref)
  with assms(2-4) deref_neq_fresh [OF assms(3)] show ?thesis
    by (simp add: CreateRepost_def alloc_def deref_append deref_beyond AList.update_conv')
qed

theorem CreateRepost_copies_content_witness:
  "\<exists>e repost e'.
     run [OpRegisterUser ''a'', OpRegisterUser ''b'', OpCreateSubReddit ''r1'',
          OpCreateSubReddit ''r2'', OpCreatePost 1 ''r1'' ''hi'', OpUpvotePost 1,
          OpCommentPost 2 1 ''nice''] NewEngine = Inr e \<and>
     CreateRepost 2 1 ''r2'' e = Inr (repost, e') \<and>
     repost = 2 \<and>
     deref (post_objs e') repost =
       Some \<lparr>Post.ID = 2, Author = 2, Content = ''hi'', Comments = [], Votes = 0\<rparr> \<and>
     deref (post_objs e') 1 =
       Some \<lparr>Post.ID = 1, Author = 1, Content = ''hi'',
             Comments = [Comment 1 2 ''nice'' [] 0], Votes = 1\<rparr> \<and>
     map_of (SubReddits e') ''r2'' = Some \<lparr>Name = ''r2'', Posts = [2], SubReddit.Users = []\<rparr>"
proof -
  let ?ops = "[OpRegisterUser ''a'', OpRegisterUser ''b'', OpCreateSubReddit ''r1'',
          OpCreateSubReddit ''r2'', OpCreatePost 1 ''r1'' ''hi'', OpUpvotePost 1,
          OpCommentPost 2 1 ''nice'']"
  have "\<exists>e u. run ?ops NewEngine = Inr e \<and>
          map_of (SubReddits e) ''r2'' = Some \<lparr>Name = ''r2'', Posts = [], SubReddit.Users = []\<rparr> \<and>
          deref (post_objs e) 1 =
            Some \<lparr>Post.ID = 1, Author = 1, Content = ''hi'',
                  Comments = [Comment 1 2 ''nice'' [] 0], Votes = 1\<rparr> \<and>
          deref (user_objs e) 2 = Some u \<and> PostID e = 2 \<and> length (post_objs e) = 1"
    by (simp add: eval_defs)
  then obtain e u where e: "run ?ops NewEngine = Inr e"
      "map_of (SubReddits e) ''r2'' = Some \<lparr>Name = ''r2'', Posts = [], SubReddit.Users = []\<rparr>"
      "deref (post_objs e) 1 =
         Some \<lparr>Post.ID = 1, Author = 1, Content = ''hi'',
               Comments = [Comment 1 2 ''nice'' [] 0], Votes = 1\<rparr>"
      "deref (user_objs e) 2 = Some u" and more: "PostID e = 2" "length (post_objs e) = 1"
    by blast
  from CreateRepost_copies_content [OF e]
  obtain repost e' where r: "CreateRepost 2 1 ''r2'' e = Inr (repost, e')"
      "deref (post_objs e) repost = None"
      "deref (post_objs e') repost =
         Some \<lparr>Post.ID = PostID e, Author = 2, Content = ''hi'', Comments = [], Votes = 0\<rparr>"
      "map_of (SubReddits e') ''r2'' = Some \<lparr>Name = ''r2'', Posts = [repost], SubReddit.Users = []\<rparr>"
      "deref (post_objs e') 1 =
         Some \<lparr>Post.ID = 1, Author = 1, Content = ''hi'',
               Comments = [Comment 1 2 ''nice'' [] 0], Votes = 1\<rparr>"
    by auto
  from r(1) e(2-4) have "repost = 2"
    by (auto simp: CreateRepost_def alloc_def more)
  with r e(1) more show ?thesis by auto
qed

subsection \<open>Membership\<close>

text \<open>
  \<^bold>\<open>C7\<close>: for every existing community \<open>c\<close> and user \<open>u\<close>, calling JoinSubReddit(u, c)
  twice leaves \<open>c\<close>'s membership map equal to calling it once (the second call
  overwrites the same entry), and calling LeaveSubReddit(u, c) when \<open>u\<close> is not a member
  leaves \<open>c\<close>'s membership map unchanged.
\<close>

theorem Join_idempotent_Leave_nonmember:
  assumes "map_of (SubReddits e) c = Some sr" and "deref (user_objs e) u = Some usr"
  shows "(\<exists>e1 e2. JoinSubReddit u c e = Inr (True, e1) \<and>
                  JoinSubReddit u c e1 = Inr (True, e2) \<and>
                  members c e1 = Some (AList.update (User.ID usr) u (SubReddit.Users sr)) \<and>
                  members c e2 = members c e1) \<and>
         (map_of (SubReddit.Users sr) (User.ID usr) = None \<longrightarrow>
            (\<exists>e'. LeaveSubReddit u c e = Inr (True, e') \<and> members c e' = members c e))"
  using assms
  by (auto simp: JoinSubReddit_def LeaveSubReddit_def members_def update_idem delete_absent
        deref_store AList.update_conv')

theorem Join_idempotent_Leave_nonmember_witness:
  "\<exists>e e1 e2 e'.
     run [OpRegisterUser ''a'', OpRegisterUser ''b'', OpCreateSubReddit ''r1'',
          OpJoinSubReddit 1 ''r1''] NewEngine = Inr e \<and>
     members ''r1'' e = Some [(1, 1)] \<and>
     JoinSubReddit 2 ''r1'' e = Inr (True, e1) \<and>
     JoinSubReddit 2 ''r1'' e1 = Inr (True, e2) \<and>
     members ''r1'' e1 = Some [(1, 1), (2, 2)] \<and>
     members ''r1'' e2 = Some [(1, 1), (2, 2)] \<and>
     LeaveSubReddit 2 ''r1'' e = Inr (True, e') \<and>
     members ''r1'' e' = Some [(1, 1)]"
proof -
  let ?ops = "[OpRegisterUser ''a'', OpRegisterUser ''b'', OpCreateSubReddit ''r1'',
               OpJoinSubReddit 1 ''r1'']"
  let ?sr = "\<lparr>Name = ''r1'', Posts = [], SubReddit.Users = [(1, 1)]\<rparr>"
  let ?usr = "\<lparr>User.ID = 2, Username = ''b'', Karma = 0, Actions = 0, Connected = True\<rparr>"
  have "\<exists>e. run ?ops NewEngine = Inr e \<and> map_of (SubReddits e) ''r1'' = Some ?sr \<and>
          deref (user_objs e) 2 = Some ?usr"
    by (simp add: eval_defs)
  then obtain e where e: "run ?ops NewEngine = Inr e" "map_of (SubReddits e) ''r1'' = Some ?sr"
      "deref (user_objs e) 2 = Some ?usr"
    by blast
  have m: "members ''r1'' e = Some [(1, 1)]"
    using e(2) by (simp add: members_def)
  from Join_idempotent_Leave_nonmember [OF e(2,3)] m e(1) show ?thesis
    by auto
qed

subsection \<open>Messages\<close>

text \<open>
  \<^bold>\<open>C8\<close>: for every user \<open>u\<close>, RetrieveMessages(u) returns exactly the messages of the log
  whose recipient is \<open>u\<close>, in the order in which they were appended, so no message with
  another recipient is among them; the call leaves the Engine state as it was. The log
  order is the order of sending: SendDirectMessage appends its message at the end of
  the log, so it extends what RetrieveMessages(u) returns at the end when \<open>u\<close> is the
  recipient and leaves it unchanged otherwise.
\<close>

theorem RetrieveMessages_filter:
  "RetrieveMessages user e = (filter (\<lambda>message. To message = user) (Messages e), e) \<and>
   list_all (\<lambda>message. To message = user) (fst (RetrieveMessages user e)) \<and>
   (SendDirectMessage sender recipient content e = Inr e' \<longrightarrow>
      Messages e' = Messages e @ [\<lparr>From = sender, To = recipient, Content = content\<rparr>] \<and>
      fst (RetrieveMessages user e') =
        fst (RetrieveMessages user e) @
          (if recipient = user then [\<lparr>From = sender, To = recipient, Content = content\<rparr>]
           else []))"
proof -
  have l: "RetrieveMessages_loop user ms acc = acc @ filter (\<lambda>message. To message = user) ms"
    for ms acc
    by (induction ms arbitrary: acc) simp_all
  have s: "Messages e' = Messages e @ [\<lparr>From = sender, To = recipient, Content = content\<rparr>]"
    if "SendDirectMessage sender recipient content e = Inr e'"
    using that by (auto simp: SendDirectMessage_def Let_def split: option.splits)
  from l s show ?thesis
    by (simp add: RetrieveMessages_def list_all_iff)
qed

theorem RetrieveMessages_filter_witness:
  "\<exists>e e'.
     run [OpRegisterUser ''a'', OpRegisterUser ''b'', OpSendDirectMessage 1 2 ''one'',
          OpSendDirectMessage 2 1 ''two'', OpSendDirectMessage 1 2 ''three''] NewEngine = Inr e \<and>
     RetrieveMessages 2 e =
       ([\<lparr>From = 1, To = 2, Content = ''one''\<rparr>, \<lparr>From = 1, To = 2, Content = ''three''\<rparr>], e) \<and>
     SendDirectMessage 1 2 ''four'' e = Inr e' \<and>
     fst (RetrieveMessages 2 e') =
       [\<lparr>From = 1, To = 2, Content = ''one''\<rparr>, \<lparr>From = 1, To = 2, Content = ''three''\<rparr>,
        \<lparr>From = 1, To = 2, Content = ''four''\<rparr>]"
proof -
  let ?ops = "[OpRegisterUser ''a'', OpRegisterUser ''b'', OpSendDirectMessage 1 2 ''one'',
          OpSendDirectMessage 2 1 ''two'', OpSendDirectMessage 1 2 ''three'']"
  have "\<exists>e u. run ?ops NewEngine = Inr e \<and> deref (user_objs e) 1 = Some u \<and>
          Messages e = [\<lparr>From = 1, To = 2, Content = ''one''\<rparr>,
                        \<lparr>From = 2, To = 1, Content = ''two''\<rparr>,
                        \<lparr>From = 1, To = 2, Content = ''three''\<rparr>]"
    by (simp add: eval_defs)
  then obtain e u where e: "run ?ops NewEngine = Inr e" and u: "deref (user_objs e) 1 = Some u"
    and m: "Messages e = [\<lparr>From = 1, To = 2, Content = ''one''\<rparr>,
                          \<lparr>From = 2, To = 1, Content = ''two''\<rparr>,
                          \<lparr>From = 1, To = 2, Content = ''three''\<rparr>]"
    by (elim exE conjE)
  from u obtain e' where s: "SendDirectMessage 1 2 ''four'' e = Inr e'"
    by (simp add: SendDirectMessage_def Let_def)
  note T = RetrieveMessages_filter [where user = 2 and e = e and sender = 1 and recipient = 2
      and content = "''four''" and e' = e']
  from T have r: "RetrieveMessages 2 e = (filter (\<lambda>message. To message = 2) (Messages e), e)"
    by blast
  from T s have a: "fst (RetrieveMessages 2 e') =
        fst (RetrieveMessages 2 e) @
          (if (2::nat) = 2 then [\<lparr>From = 1, To = 2, Content = ''four''\<rparr>] else [])"
    by blast
  from r m have r': "RetrieveMessages 2 e =
       ([\<lparr>From = 1, To = 2, Content = ''one''\<rparr>, \<lparr>From = 1, To = 2, Content = ''three''\<rparr>], e)"
    by simp
  from a r' have a': "fst (RetrieveMessages 2 e') =
       [\<lparr>From = 1, To = 2, Content = ''one''\<rparr>, \<lparr>From = 1, To = 2, Content = ''three''\<rparr>,
        \<lparr>From = 1, To = 2, Content = ''four''\<rparr>]"
    by simp
  show ?thesis
    by (intro exI conjI) (rule e r' s a')+
qed

subsection \<open>Comment pointers\<close>

text \<open>
  \<^bold>\<open>C9\<close>: the \<^verbatim>\<open>*Comment\<close> returned by CommentPost (and by AddReplyToComment) points to a
  fresh cell that holds a copy of the comment, not to the element stored in the post's
  \<^verbatim>\<open>Comments\<close> list (respectively the parent's \<^verbatim>\<open>Replies\<close> list). A subsequent
  AddReplyToComment with the returned pointer as parent appends the reply to the copy
  only: the posts, and with them the comment tree stored under the post, stay as they
  were, and a reply made through the pointer returned for a reply does not reach the
  parent's \<^verbatim>\<open>Replies\<close> either.
\<close>

theorem CommentPost_returns_copy:
  assumes "deref (post_objs e) post = Some p"
    and "deref (user_objs e) user = Some u"
    and "deref (user_objs e) replier = Some ur"
  shows "\<exists>c e1 r e2 r' e3.
           CommentPost user post content e = Inr (c, e1) \<and>
           deref (comment_objs e) c = None \<and>
           deref (comment_objs e1) c = Some (Comment (CommentID e) user content [] 0) \<and>
           map_option Comments (deref (post_objs e1) post) =
             Some (Comments p @ [Comment (CommentID e) user content [] 0]) \<and>
           AddReplyToComment replier c content2 e1 = Inr (r, e2) \<and>
           r \<noteq> c \<and> deref (comment_objs e1) r = None \<and>
           deref (comment_objs e2) r = Some (Comment (CommentID e1) replier content2 [] 0) \<and>
           deref (comment_objs e2) c =
             Some (Comment (CommentID e) user content
                     [Comment (CommentID e1) replier content2 [] 0] 0) \<and>
           post_objs e2 = post_objs e1 \<and>
           AddReplyToComment replier r content3 e2 = Inr (r', e3) \<and>
           r' \<noteq> r \<and> r' \<noteq> c \<and>
           deref (comment_objs e3) r =
             Some (Comment (CommentID e1) replier content2
                     [Comment (CommentID e2) replier content3 [] 0] 0) \<and>
           deref (comment_objs e3) c = deref (comment_objs e2) c \<and>
           post_objs e3 = post_objs e1"
  using assms
  by (auto simp: CommentPost_def AddReplyToComment_def alloc_def Let_def deref_append
        deref_store deref_beyond)

theorem CommentPost_returns_copy_witness:
  "\<exists>e c e1 r e2 r' e3.
     run [OpRegisterUser ''a'', OpRegisterUser ''b'', OpCreateSubReddit ''r1'',
          OpCreatePost 1 ''r1'' ''hi''] NewEngine = Inr e \<and>
     CommentPost 1 1 ''first'' e = Inr (c, e1) \<and>
     AddReplyToComment 2 c ''second'' e1 = Inr (r, e2) \<and>
     AddReplyToComment 2 r ''third'' e2 = Inr (r', e3) \<and>
     map_option Comments (deref (post_objs e1) 1) = Some [Comment 1 1 ''first'' [] 0] \<and>
     map_option Comments (deref (post_objs e3) 1) = Some [Comment 1 1 ''first'' [] 0] \<and>
     deref (comment_objs e3) c = Some (Comment 1 1 ''first'' [Comment 2 2 ''second'' [] 0] 0) \<and>
     deref (comment_objs e3) r = Some (Comment 2 2 ''second'' [Comment 3 2 ''third'' [] 0] 0)"
proof -
  let ?ops = "[OpRegisterUser ''a'', OpRegisterUser ''b'', OpCreateSubReddit ''r1'',
               OpCreatePost 1 ''r1'' ''hi'']"
  let ?p = "\<lparr>Post.ID = 1, Author = 1, Content = ''hi'', Comments = [], Votes = 0\<rparr>"
  have "\<exists>e u ur. run ?ops NewEngine = Inr e \<and> deref (post_objs e) 1 = Some ?p \<and>
          deref (user_objs e) 1 = Some u \<and> deref (user_objs e) 2 = Some ur \<and> CommentID e = 1"
    by (simp add: eval_defs)
  then obtain e u ur where e: "run ?ops NewEngine = Inr e" "deref (post_objs e) 1 = Some ?p"
      "deref (user_objs e) 1 = Some u" "deref (user_objs e) 2 = Some ur" and cid: "CommentID e = 1"
    by blast
  from CommentPost_returns_copy [OF e(2-4), of "''first''" "''second''" "''third''"]
  obtain c e1 r e2 r' e3 where s:
      "CommentPost 1 1 ''first'' e = Inr (c, e1)"
      "AddReplyToComment 2 c ''second'' e1 = Inr (r, e2)"
      "AddReplyToComment 2 r ''third'' e2 = Inr (r', e3)"
      "map_option Comments (deref (post_objs e1) 1) = Some [Comment (CommentID e) 1 ''first'' [] 0]"
      "post_objs e3 = post_objs e1"
      "deref (comment_objs e3) c =
         Some (Comment (CommentID e) 1 ''first'' [Comment (CommentID e1) 2 ''second'' [] 0] 0)"
      "deref (comment_objs e3) r =
         Some (Comment (CommentID e1) 2 ''second'' [Comment (CommentID e2) 2 ''third'' [] 0] 0)"
    by auto
  from s(1) e(2-4) cid have c1: "CommentID e1 = 2"
    by (auto simp: CommentPost_def alloc_def Let_def)
  from s(2) c1 have c2: "CommentID e2 = 3"
    by (auto simp: AddReplyToComment_def alloc_def Let_def split: option.splits)
  from s e(1) cid c1 c2 show ?thesis by auto
qed

end
